theory Spec2Isabelle
  imports Main "HOL-Library.Multiset"
begin

section \<open>Storage model (src/models.py)\<close>

text \<open>
  Each table of \<^verbatim>\<open>models.py\<close> is a list of rows, in the order in which the backend
  scans the table. Integer columns are Python/SQL integers (\<^typ>\<open>int\<close>); a timestamp is
  the clock reading as an integer number of microseconds. A \<^typ>\<open>char\<close> of a string
  stands for one code point of the Python \<^verbatim>\<open>str\<close>, so \<^const>\<open>length\<close> is Python's
  \<^verbatim>\<open>len\<close>. The column \<^verbatim>\<open>id\<close> of the three models is named \<open>u_id\<close>, \<open>t_id\<close>, \<open>m_id\<close>,
  and \<^verbatim>\<open>user_id\<close>, \<^verbatim>\<open>tweet_id\<close> get the same prefixes.
\<close>

record user =
  u_id :: int
  u_name :: string
  api_key :: string

record tweet =
  t_id :: int
  content :: string
  created_at :: int
  t_user_id :: int

record media =
  m_id :: int
  filename :: string
  path :: string
  uploaded_at :: int
  m_user_id :: int
  m_tweet_id :: "int option"

text \<open>
  The association tables: a row of \<open>followers\<close> is \<open>(follower_id, followed_id)\<close>, a row
  of \<open>likes\<close> is \<open>(user_id, tweet_id)\<close>.
\<close>

record store =
  users :: "user list"
  tweets :: "tweet list"
  medias :: "media list"
  followers :: "(int \<times> int) list"
  likes :: "(int \<times> int) list"

text \<open>
  The constraints that \<^verbatim>\<open>models.py\<close> declares and that the theorems below name where they
  depend on them: the foreign keys \<^verbatim>\<open>tweet.user_id\<close>, \<^verbatim>\<open>media.tweet_id\<close> (nullable) and
  \<^verbatim>\<open>likes.user_id\<close>. The primary keys appear as \<^const>\<open>distinct\<close> on the column.
\<close>

definition tweet_user_fk :: "store \<Rightarrow> bool" where
  "tweet_user_fk s = list_all (\<lambda>t. t_user_id t \<in> set (map u_id (users s))) (tweets s)"

definition media_tweet_fk :: "store \<Rightarrow> bool" where
  "media_tweet_fk s =
     list_all (\<lambda>m. case m_tweet_id m of None \<Rightarrow> True
                    | Some t \<Rightarrow> t \<in> set (map t_id (tweets s))) (medias s)"

definition likes_user_fk :: "store \<Rightarrow> bool" where
  "likes_user_fk s = list_all (\<lambda>e. fst e \<in> set (map u_id (users s))) (likes s)"

text \<open>
  An autoincrement primary key: the backend picks an id that no row of the table has.
  The model takes the successor of the largest id in use (and 1 for an empty table).
\<close>

definition next_id :: "int list \<Rightarrow> int" where
  "next_id ids = fold max ids 0 + 1"

subsection \<open>Queries and relationships\<close>

text \<open>\<^verbatim>\<open>Tweet.query.get(tweet_id)\<close> and \<^verbatim>\<open>User.query.get(user_id)\<close>: the row or \<^verbatim>\<open>None\<close>.\<close>

definition get_tweet :: "store \<Rightarrow> int \<Rightarrow> tweet option" where
  "get_tweet s tweet_id = find (\<lambda>t. t_id t = tweet_id) (tweets s)"

definition get_user_by_id :: "store \<Rightarrow> int \<Rightarrow> user option" where
  "get_user_by_id s user_id = find (\<lambda>u. u_id u = user_id) (users s)"

text \<open>
  \<^verbatim>\<open>user.following\<close>: the join of \<open>user\<close> with \<open>followers\<close> on
  \<^verbatim>\<open>follower_id == user.id\<close> and \<^verbatim>\<open>followed_id == id\<close>, one row per matching pair.
\<close>

definition following :: "store \<Rightarrow> user \<Rightarrow> user list" where
  "following s usr =
     [x. e \<leftarrow> followers s, fst e = u_id usr, x \<leftarrow> users s, u_id x = snd e]"

text \<open>\<^verbatim>\<open>tweet.likes\<close>: the join of \<open>user\<close> with \<open>likes\<close> for this tweet.\<close>

definition tweet_likes :: "store \<Rightarrow> tweet \<Rightarrow> user list" where
  "tweet_likes s tw =
     [x. e \<leftarrow> likes s, snd e = t_id tw, x \<leftarrow> users s, u_id x = fst e]"

text \<open>\<^verbatim>\<open>tweet.medias\<close>: the media rows whose \<^verbatim>\<open>tweet_id\<close> is this tweet.\<close>

definition tweet_medias :: "store \<Rightarrow> tweet \<Rightarrow> media list" where
  "tweet_medias s tw = [m \<leftarrow> medias s. m_tweet_id m = Some (t_id tw)]"

text \<open>\<^verbatim>\<open>tweet.user\<close> (the backref of \<^verbatim>\<open>User.tweets\<close>): the owner's row or \<^verbatim>\<open>None\<close>.\<close>

definition tweet_user :: "store \<Rightarrow> tweet \<Rightarrow> user option" where
  "tweet_user s tw = find (\<lambda>u. u_id u = t_user_id tw) (users s)"

text \<open>\<^verbatim>\<open>Media.get_url\<close>.\<close>

definition get_url :: "media \<Rightarrow> string" where
  "get_url m = ''/static/uploads/'' @ filename m"

section \<open>Graph mutations (src/services.py)\<close>

text \<open>
  The second component of a result tuple is a message. The four literal messages of
  \<^verbatim>\<open>services.py\<close> (Russian text in the source) are constructors: \<open>TweetNotFound\<close> (tweet
  not found), \<open>OnlyOwnTweets\<close> (only one's own tweets can be deleted), \<open>CannotFollowSelf\<close>
  (one cannot follow oneself), \<open>UserNotFound\<close> (user not found); \<open>DbError e\<close> is
  \<^verbatim>\<open>str(e)\<close> of a caught \<^verbatim>\<open>SQLAlchemyError\<close>.
\<close>

datatype msg = TweetNotFound | OnlyOwnTweets | CannotFollowSelf | UserNotFound | DbError string

text \<open>
  A Python exception that no \<^verbatim>\<open>except\<close> clause of the source catches leaves the
  function; it is the left summand of the result.
\<close>

datatype py_error = OverflowError | AttributeError

text \<open>
  A Python integer that is passed to a query as a parameter is bound by the database
  driver. The driver of the backend that \<^verbatim>\<open>src/tests\<close> uses (SQLite) binds a signed 64-bit
  integer and raises \<^verbatim>\<open>OverflowError\<close> for an integer outside that range; the error is
  not a \<^verbatim>\<open>SQLAlchemyError\<close>.
\<close>

definition bindable :: "int \<Rightarrow> bool" where
  "bindable i = (- (2 ^ 63) \<le> i \<and> i < 2 ^ 63)"

definition bindable_ids :: "int list option \<Rightarrow> bool" where
  "bindable_ids media_ids =
     (case media_ids of None \<Rightarrow> True | Some ids \<Rightarrow> list_all bindable ids)"

text \<open>
  Every operation takes the store and returns the store after it, with the result tuple.
  The argument \<open>fault\<close> is what the persistence layer does inside the \<^verbatim>\<open>try\<close> block:
  \<open>None\<close> when flush and commit go through, \<open>Some e\<close> when a \<^verbatim>\<open>SQLAlchemyError\<close> with
  text \<open>e\<close> is raised, after which \<^verbatim>\<open>rollback\<close> restores the store. \<open>now\<close> is the clock
  reading that the column default \<^verbatim>\<open>datetime.now(timezone.utc)\<close> takes.

  In \<open>create_tweet\<close> the ids of \<open>media_ids\<close> are the parameters of the media query, which
  runs when the list is not empty. When one of them cannot be bound, \<^verbatim>\<open>.all()\<close> raises
  \<^verbatim>\<open>OverflowError\<close>, which \<^verbatim>\<open>except SQLAlchemyError\<close> does not catch: the function is
  left before \<^verbatim>\<open>commit\<close>, and the flushed tweet row is never committed. A fault
  \<open>Some e\<close> is taken at \<^verbatim>\<open>flush\<close>, the first statement of the \<^verbatim>\<open>try\<close> block that reaches the
  database, and so comes before the media query.
\<close>

definition create_tweet ::
  "string option \<Rightarrow> int \<Rightarrow> store \<Rightarrow> user \<Rightarrow> string \<Rightarrow> int list option
     \<Rightarrow> py_error + store \<times> (bool \<times> int option \<times> msg option)" where
  "create_tweet fault now s usr cont media_ids =
     (case fault of
        Some e \<Rightarrow> Inr (s, (False, None, Some (DbError e)))
      | None \<Rightarrow>
          (let tw = \<lparr>t_id = next_id (map t_id (tweets s)), content = cont,
                     created_at = now, t_user_id = u_id usr\<rparr>;
               s1 = s\<lparr>tweets := tweets s @ [tw]\<rparr>
           in case media_ids of
                None \<Rightarrow> Inr (s1, (True, Some (t_id tw), None))
              | Some ids \<Rightarrow>
                  if ids = [] then Inr (s1, (True, Some (t_id tw), None))
                  else if \<not> list_all bindable ids then Inl OverflowError
                  else
                    Inr (s1\<lparr>medias :=
                             map (\<lambda>m. if m_id m \<in> set ids \<and> m_user_id m = u_id usr
                                       then m\<lparr>m_tweet_id := Some (t_id tw)\<rparr> else m)
                                 (medias s1)\<rparr>,
                         (True, Some (t_id tw), None))))"

definition upload_media ::
  "string option \<Rightarrow> int \<Rightarrow> store \<Rightarrow> user \<Rightarrow> string \<Rightarrow> string
     \<Rightarrow> store \<times> (bool \<times> int option \<times> msg option)" where
  "upload_media fault now s usr fname pth =
     (case fault of
        Some e \<Rightarrow> (s, (False, None, Some (DbError e)))
      | None \<Rightarrow>
          (let m = \<lparr>m_id = next_id (map m_id (medias s)), filename = fname, path = pth,
                    uploaded_at = now, m_user_id = u_id usr, m_tweet_id = None\<rparr>
           in (s\<lparr>medias := medias s @ [m]\<rparr>, (True, Some (m_id m), None))))"

text \<open>
  \<^verbatim>\<open>db.session.delete(tweet)\<close> followed by \<^verbatim>\<open>commit\<close>. The relationships of \<^verbatim>\<open>Tweet\<close>
  declare no delete cascade, so the unit of work deletes the tweet's row, deletes the
  association rows of \<^verbatim>\<open>tweet.likes\<close> (a \<^verbatim>\<open>secondary\<close> table), and sets \<^verbatim>\<open>tweet_id\<close> of
  the rows of \<^verbatim>\<open>tweet.medias\<close> to NULL.
\<close>

definition session_delete :: "store \<Rightarrow> tweet \<Rightarrow> store" where
  "session_delete s tw =
     s\<lparr>tweets := [t \<leftarrow> tweets s. t_id t \<noteq> t_id tw],
       likes := [e \<leftarrow> likes s.
                  \<not> (snd e = t_id tw \<and> fst e \<in> set (map u_id (tweet_likes s tw)))],
       medias := map (\<lambda>m. if m \<in> set (tweet_medias s tw) then m\<lparr>m_tweet_id := None\<rparr> else m)
                     (medias s)\<rparr>"

definition delete_tweet ::
  "string option \<Rightarrow> store \<Rightarrow> user \<Rightarrow> int \<Rightarrow> store \<times> (bool \<times> msg option)" where
  "delete_tweet fault s usr tweet_id =
     (case get_tweet s tweet_id of
        None \<Rightarrow> (s, (False, Some TweetNotFound))
      | Some tw \<Rightarrow>
          if t_user_id tw \<noteq> u_id usr then (s, (False, Some OnlyOwnTweets))
          else (case fault of
                  Some e \<Rightarrow> (s, (False, Some (DbError e)))
                | None \<Rightarrow> (session_delete s tw, (True, None))))"

definition like_tweet ::
  "string option \<Rightarrow> store \<Rightarrow> user \<Rightarrow> int \<Rightarrow> store \<times> (bool \<times> msg option)" where
  "like_tweet fault s usr tweet_id =
     (case get_tweet s tweet_id of
        None \<Rightarrow> (s, (False, Some TweetNotFound))
      | Some tw \<Rightarrow>
          (case find (\<lambda>x. u_id x = u_id usr) (tweet_likes s tw) of
             Some existing_like \<Rightarrow> (s, (True, None))
           | None \<Rightarrow>
               (case fault of
                  Some e \<Rightarrow> (s, (False, Some (DbError e)))
                | None \<Rightarrow> (s\<lparr>likes := likes s @ [(u_id usr, t_id tw)]\<rparr>, (True, None)))))"

definition unlike_tweet ::
  "string option \<Rightarrow> store \<Rightarrow> user \<Rightarrow> int \<Rightarrow> store \<times> (bool \<times> msg option)" where
  "unlike_tweet fault s usr tweet_id =
     (case get_tweet s tweet_id of
        None \<Rightarrow> (s, (False, Some TweetNotFound))
      | Some tw \<Rightarrow>
          (case find (\<lambda>x. u_id x = u_id usr) (tweet_likes s tw) of
             None \<Rightarrow> (s, (True, None))
           | Some existing_like \<Rightarrow>
               (case fault of
                  Some e \<Rightarrow> (s, (False, Some (DbError e)))
                | None \<Rightarrow>
                    (s\<lparr>likes := [e \<leftarrow> likes s. e \<noteq> (u_id usr, t_id tw)]\<rparr>, (True, None)))))"

definition follow_user ::
  "string option \<Rightarrow> store \<Rightarrow> user \<Rightarrow> int \<Rightarrow> store \<times> (bool \<times> msg option)" where
  "follow_user fault s usr user_id_to_follow =
     (if u_id usr = user_id_to_follow then (s, (False, Some CannotFollowSelf))
      else
        (case get_user_by_id s user_id_to_follow of
           None \<Rightarrow> (s, (False, Some UserNotFound))
         | Some user_to_follow \<Rightarrow>
             if user_to_follow \<in> set (following s usr) then (s, (True, None))
             else (case fault of
                     Some e \<Rightarrow> (s, (False, Some (DbError e)))
                   | None \<Rightarrow>
                       (s\<lparr>followers := followers s @ [(u_id usr, u_id user_to_follow)]\<rparr>,
                        (True, None)))))"

definition unfollow_user ::
  "string option \<Rightarrow> store \<Rightarrow> user \<Rightarrow> int \<Rightarrow> store \<times> (bool \<times> msg option)" where
  "unfollow_user fault s usr user_id_to_unfollow =
     (case get_user_by_id s user_id_to_unfollow of
        None \<Rightarrow> (s, (False, Some UserNotFound))
      | Some user_to_unfollow \<Rightarrow>
          if user_to_unfollow \<notin> set (following s usr) then (s, (True, None))
          else (case fault of
                  Some e \<Rightarrow> (s, (False, Some (DbError e)))
                | None \<Rightarrow>
                    (s\<lparr>followers :=
                         [e \<leftarrow> followers s. e \<noteq> (u_id usr, u_id user_to_unfollow)]\<rparr>,
                     (True, None))))"

section \<open>Timeline (src/services.py, get_timeline)\<close>

text \<open>
  \<^verbatim>\<open>tweets_query.all()\<close>: the rows that pass the filter, ordered by
  \<^verbatim>\<open>created_at\<close> descending. The sort is the library's stable insertion sort on the negated
  timestamp, so rows with equal timestamps come out in the scan order of the table.
\<close>

definition timeline_query :: "store \<Rightarrow> user \<Rightarrow> tweet list" where
  "timeline_query s usr =
     (let followed_ids = map u_id (following s usr)
      in sort_key (\<lambda>t. - created_at t)
           [t \<leftarrow> tweets s. t_user_id t = u_id usr \<or> t_user_id t \<in> set followed_ids])"

record tweet_view =
  tv_id :: int
  tv_content :: string
  tv_attachments :: "string list"
  tv_author :: "int \<times> string"
  tv_likes :: "(int \<times> string) list"

text \<open>
  The dictionary built for one tweet. \<^verbatim>\<open>tweet.user\<close> is \<^verbatim>\<open>None\<close> when the owner has no
  row, and \<^verbatim>\<open>tweet.user.id\<close> then raises \<^verbatim>\<open>AttributeError\<close>.
\<close>

definition tweet_dict :: "store \<Rightarrow> tweet \<Rightarrow> py_error + tweet_view" where
  "tweet_dict s tw =
     (let attachments = map get_url (tweet_medias s tw);
          lks = map (\<lambda>u. (u_id u, u_name u)) (tweet_likes s tw)
      in case tweet_user s tw of
           None \<Rightarrow> Inl AttributeError
         | Some author \<Rightarrow>
             Inr \<lparr>tv_id = t_id tw, tv_content = content tw, tv_attachments = attachments,
                  tv_author = (u_id author, u_name author), tv_likes = lks\<rparr>)"

fun timeline_loop :: "store \<Rightarrow> tweet list \<Rightarrow> tweet_view list \<Rightarrow> py_error + tweet_view list" where
  "timeline_loop s [] acc = Inr acc"
| "timeline_loop s (tw # rest) acc =
     (case tweet_dict s tw of
        Inl err \<Rightarrow> Inl err
      | Inr v \<Rightarrow> timeline_loop s rest (acc @ [v]))"

definition get_timeline :: "store \<Rightarrow> user \<Rightarrow> py_error + tweet_view list" where
  "get_timeline s usr = timeline_loop s (timeline_query s usr) []"

section \<open>The route in front of create_tweet (src/routes.py, create_tweet_route)\<close>

text \<open>
  The JSON values of a request body. \<open>data\<close> is the dictionary \<^verbatim>\<open>request.json or {}\<close>.
\<close>

datatype json = JNull | JBool bool | JInt int | JFloat | JStr string
  | JList "json list" | JObj "(string \<times> json) list"

text \<open>Python truthiness of a JSON value (\<^verbatim>\<open>not tweet_data\<close> is its negation).\<close>

fun truthy :: "json \<Rightarrow> bool" where
  "truthy JNull = False"
| "truthy (JBool b) = b"
| "truthy (JInt i) = (i \<noteq> 0)"
| "truthy JFloat = True"
| "truthy (JStr txt) = (txt \<noteq> [])"
| "truthy (JList xs) = (xs \<noteq> [])"
| "truthy (JObj kvs) = (kvs \<noteq> [])"

text \<open>
  \<^verbatim>\<open>isinstance(i, int)\<close> holds for integers and for booleans (\<^verbatim>\<open>bool\<close> is a subclass of
  \<^verbatim>\<open>int\<close>, with \<^verbatim>\<open>True == 1\<close>); \<open>as_int\<close> is the integer such a value is.
\<close>

fun as_int :: "json \<Rightarrow> int option" where
  "as_int (JInt i) = Some i"
| "as_int (JBool b) = Some (if b then 1 else 0)"
| "as_int _ = None"

fun int_items :: "json list \<Rightarrow> int list option" where
  "int_items [] = Some []"
| "int_items (x # xs) =
     (case as_int x of
        None \<Rightarrow> None
      | Some i \<Rightarrow> (case int_items xs of None \<Rightarrow> None | Some is \<Rightarrow> Some (i # is)))"

datatype error_message = TweetDataRequired | TweetTooLong | MediaIdsNotIntList | InternalError

text \<open>
  The JSON body of the answer: \<open>ResultTrue\<close> carries \<^verbatim>\<open>tweet_id\<close>, \<open>ResultFalse\<close> carries
  \<^verbatim>\<open>error_type\<close> and which of the route's messages \<^verbatim>\<open>error_message\<close> is. The answer is the
  body with the HTTP status. An exception that leaves \<open>create_tweet\<close> leaves the route too.
\<close>

datatype body = ResultTrue "int option" | ResultFalse string error_message

definition create_tweet_route ::
  "string option \<Rightarrow> int \<Rightarrow> store \<Rightarrow> user \<Rightarrow> (string \<rightharpoonup> json)
     \<Rightarrow> py_error + store \<times> (body \<times> nat)" where
  "create_tweet_route fault now s current_user data =
     (let tweet_data = (case data ''tweet_data'' of None \<Rightarrow> JNull | Some v \<Rightarrow> v);
          tweet_media_ids = (case data ''tweet_media_ids'' of None \<Rightarrow> JList [] | Some v \<Rightarrow> v)
      in case tweet_data of
           JStr txt \<Rightarrow>
             if \<not> truthy tweet_data
             then Inr (s, (ResultFalse ''ValidationError'' TweetDataRequired, 400))
             else if length txt > 280
             then Inr (s, (ResultFalse ''ValidationError'' TweetTooLong, 400))
             else
               (case tweet_media_ids of
                  JList items \<Rightarrow>
                    (case int_items items of
                       None \<Rightarrow>
                         Inr (s, (ResultFalse ''ValidationError'' MediaIdsNotIntList, 400))
                     | Some ids \<Rightarrow>
                         (case create_tweet fault now s current_user txt (Some ids) of
                            Inl err \<Rightarrow> Inl err
                          | Inr (s', (success, tweet_id, error)) \<Rightarrow>
                              if success then Inr (s', (ResultTrue tweet_id, 201))
                              else Inr (s', (ResultFalse ''ServerError'' InternalError, 500))))
                | _ \<Rightarrow> Inr (s, (ResultFalse ''ValidationError'' MediaIdsNotIntList, 400)))
         | _ \<Rightarrow> Inr (s, (ResultFalse ''ValidationError'' TweetDataRequired, 400)))"

section \<open>The order that the specification words\<close>

text \<open>
  The specification's order of a timeline, written from its words: creation timestamp
  descending, and of two tweets with the same timestamp the one with the larger id first.
\<close>

definition time_then_id_desc :: "tweet list \<Rightarrow> bool" where
  "time_then_id_desc ts =
     sorted_wrt (\<lambda>a b. created_at b < created_at a
                        \<or> (created_at a = created_at b \<and> t_id b < t_id a)) ts"

section \<open>Example stores\<close>

definition alice :: user where
  "alice = \<lparr>u_id = 1, u_name = ''A'', api_key = ''ka''\<rparr>"

definition bob :: user where
  "bob = \<lparr>u_id = 2, u_name = ''B'', api_key = ''kb''\<rparr>"

definition store0 :: store where
  "store0 = \<lparr>users = [alice, bob], tweets = [], medias = [], followers = [], likes = []\<rparr>"

definition store1 :: store where
  "store1 =
     \<lparr>users = [alice, bob],
      tweets = [\<lparr>t_id = 1, content = ''Hello world!'', created_at = 10, t_user_id = 1\<rparr>,
                \<lparr>t_id = 2, content = ''Hi'', created_at = 20, t_user_id = 2\<rparr>],
      medias = [\<lparr>m_id = 1, filename = ''photo.png'', path = ''static/uploads/photo.png'',
                 uploaded_at = 5, m_user_id = 1, m_tweet_id = Some 1\<rparr>],
      followers = [(1, 2)],
      likes = [(2, 1)]\<rparr>"

text \<open>Two tweets created at the same clock reading.\<close>

definition store_tie :: store where
  "store_tie =
     fst (projr (create_tweet None 100
                   (fst (projr (create_tweet None 100 store0 alice ''a'' None)))
                   alice ''b'' None))"


section \<open>Auxiliary facts\<close>

lemma find_SomeD: "find P xs = Some x \<Longrightarrow> P x \<and> x \<in> set xs"
  by (auto simp: find_Some_iff)

lemma find_None_iff_set: "find P xs = None \<longleftrightarrow> (\<forall>x \<in> set xs. \<not> P x)"
  by (auto simp: find_None_iff)

lemma get_tweetD: "get_tweet s i = Some tw \<Longrightarrow> tw \<in> set (tweets s) \<and> t_id tw = i"
  unfolding get_tweet_def by (drule find_SomeD) simp

lemma get_user_by_idD: "get_user_by_id s i = Some u \<Longrightarrow> u \<in> set (users s) \<and> u_id u = i"
  unfolding get_user_by_id_def by (drule find_SomeD) simp

lemma set_following:
  "set (following s usr) = {x \<in> set (users s). (u_id usr, u_id x) \<in> set (followers s)}"
  by (force simp: following_def)

lemma set_tweet_likes:
  "set (tweet_likes s tw) = {x \<in> set (users s). (u_id x, t_id tw) \<in> set (likes s)}"
  by (force simp: tweet_likes_def)

lemma fold_max_ge: "a \<le> fold max ids (a::int)"
  by (induction ids arbitrary: a) (auto intro: order_trans [OF max.cobounded2])

lemma fold_max_mem: "x \<in> set ids \<Longrightarrow> x \<le> fold max ids (a::int)"
proof (induction ids arbitrary: a)
  case Nil
  then show ?case by simp
next
  case (Cons y ys)
  show ?case
  proof (cases "x = y")
    case True
    have "y \<le> max y a" by simp
    also have "\<dots> \<le> fold max ys (max y a)" by (rule fold_max_ge)
    finally show ?thesis using True by simp
  next
    case False
    with Cons.prems have "x \<in> set ys" by simp
    then show ?thesis using Cons.IH by simp
  qed
qed

lemma next_id_fresh: "x \<in> set ids \<Longrightarrow> x < next_id ids"
  using fold_max_mem [of x ids 0] by (simp add: next_id_def)

lemma next_id_notin: "next_id ids \<notin> set ids"
  using next_id_fresh [of "next_id ids" ids] by auto

section \<open>Self-follow is refused\<close>

text \<open>
  C6. In every store and whatever the persistence layer does, \<open>follow_user\<close> of a user
  with the user's own id returns the failure with the self-follow message and leaves
  the store as it was; \<open>unfollow_user\<close> has no such check: with the user's own id it
  never answers with that message, and it answers success for a user who has a row and
  does not follow themself.
\<close>

theorem follow_self_refused:
  "follow_user fault s usr (u_id usr) = (s, (False, Some CannotFollowSelf))
   \<and> snd (unfollow_user fault s usr (u_id usr)) \<noteq> (False, Some CannotFollowSelf)
   \<and> (get_user_by_id s (u_id usr) \<noteq> None \<and> (u_id usr, u_id usr) \<notin> set (followers s)
        \<longrightarrow> unfollow_user fault s usr (u_id usr) = (s, (True, None)))"
proof -
  have a: "follow_user fault s usr (u_id usr) = (s, (False, Some CannotFollowSelf))"
    by (simp add: follow_user_def)
  have b: "snd (unfollow_user fault s usr (u_id usr)) \<noteq> (False, Some CannotFollowSelf)"
    by (simp add: unfollow_user_def split: option.splits)
  have c: "unfollow_user fault s usr (u_id usr) = (s, (True, None))"
    if "get_user_by_id s (u_id usr) \<noteq> None" "(u_id usr, u_id usr) \<notin> set (followers s)"
  proof -
    from that(1) obtain x where x: "get_user_by_id s (u_id usr) = Some x" by auto
    then have "u_id x = u_id usr" by (simp add: get_user_by_idD)
    with that(2) have "x \<notin> set (following s usr)" by (simp add: set_following)
    with x show ?thesis by (simp add: unfollow_user_def)
  qed
  from a b c show ?thesis by blast
qed

theorem follow_self_refused_witness:
  "follow_user None store0 alice 1 = (store0, (False, Some CannotFollowSelf))
   \<and> unfollow_user None store0 alice 1 = (store0, (True, None))"
  using follow_self_refused [of None store0 alice]
  by (simp add: alice_def bob_def store0_def get_user_by_id_def)

section \<open>Refusals of delete_tweet\<close>



section \<open>Like and follow edges are sets\<close>

lemma count_list_distinct_mem: "distinct xs \<Longrightarrow> x \<in> set xs \<Longrightarrow> count_list xs x = 1"
  by (induction xs) (auto simp: count_list_0_iff)

lemma existing_like_None_iff:
  "(find (\<lambda>x. u_id x = u_id usr) (tweet_likes s tw) = None)
     \<longleftrightarrow> \<not> (u_id usr \<in> set (map u_id (users s)) \<and> (u_id usr, t_id tw) \<in> set (likes s))"
  by (force simp: find_None_iff_set set_tweet_likes)

lemma like_twice:
  assumes row: "u_id usr \<in> set (map u_id (users s))"
    and tw: "get_tweet s t = Some tw"
    and pk: "distinct (likes s)"
  shows "\<exists>s1. like_tweet None s usr t = (s1, (True, None))
            \<and> like_tweet fault s1 usr t = (s1, (True, None))
            \<and> count_list (likes s1) (u_id usr, t) = 1"
proof -
  from tw have tid: "t_id tw = t" by (simp add: get_tweetD)
  show ?thesis
  proof (cases "(u_id usr, t) \<in> set (likes s)")
    case True
    with row tid have ex: "find (\<lambda>x. u_id x = u_id usr) (tweet_likes s tw) \<noteq> None"
      by (simp add: existing_like_None_iff)
    then have "like_tweet f s usr t = (s, (True, None))" for f
      using tw by (auto simp: like_tweet_def)
    moreover have "count_list (likes s) (u_id usr, t) = 1"
      using pk True by (rule count_list_distinct_mem)
    ultimately show ?thesis by blast
  next
    case False
    with tid have no: "find (\<lambda>x. u_id x = u_id usr) (tweet_likes s tw) = None"
      by (simp add: existing_like_None_iff)
    define s1 where "s1 = s\<lparr>likes := likes s @ [(u_id usr, t_id tw)]\<rparr>"
    have first: "like_tweet None s usr t = (s1, (True, None))"
      using tw no by (simp add: like_tweet_def s1_def)
    have tw1: "get_tweet s1 t = Some tw"
      using tw by (simp add: get_tweet_def s1_def)
    have "find (\<lambda>x. u_id x = u_id usr) (tweet_likes s1 tw) \<noteq> None"
      using row by (simp add: existing_like_None_iff s1_def)
    then have second: "like_tweet fault s1 usr t = (s1, (True, None))"
      using tw1 by (auto simp: like_tweet_def)
    have "count_list (likes s1) (u_id usr, t) = 1"
      using False tid by (simp add: s1_def count_list_0_iff)
    with first second show ?thesis by blast
  qed
qed

lemma unlike_absent:
  assumes tw: "get_tweet s t = Some tw" and no: "(u_id usr, t) \<notin> set (likes s)"
  shows "unlike_tweet fault s usr t = (s, (True, None))"
proof -
  from tw have "t_id tw = t" by (simp add: get_tweetD)
  with no have "find (\<lambda>x. u_id x = u_id usr) (tweet_likes s tw) = None"
    by (simp add: existing_like_None_iff)
  with tw show ?thesis by (simp add: unlike_tweet_def)
qed

lemma follow_twice:
  assumes v: "get_user_by_id s v = Some uv" and ne: "v \<noteq> u_id usr"
    and pk: "distinct (followers s)"
  shows "\<exists>s1. follow_user None s usr v = (s1, (True, None))
            \<and> follow_user fault s1 usr v = (s1, (True, None))
            \<and> count_list (followers s1) (u_id usr, v) = 1"
proof -
  from v have uv: "uv \<in> set (users s)" "u_id uv = v" by (simp_all add: get_user_by_idD)
  show ?thesis
  proof (cases "(u_id usr, v) \<in> set (followers s)")
    case True
    with uv have "uv \<in> set (following s usr)" by (simp add: set_following)
    then have "follow_user f s usr v = (s, (True, None))" for f
      using v ne by (auto simp: follow_user_def)
    moreover have "count_list (followers s) (u_id usr, v) = 1"
      using pk True by (rule count_list_distinct_mem)
    ultimately show ?thesis by blast
  next
    case False
    with uv have no: "uv \<notin> set (following s usr)" by (simp add: set_following)
    define s1 where "s1 = s\<lparr>followers := followers s @ [(u_id usr, u_id uv)]\<rparr>"
    have first: "follow_user None s usr v = (s1, (True, None))"
      using v ne no by (auto simp: follow_user_def s1_def)
    have v1: "get_user_by_id s1 v = Some uv"
      using v by (simp add: get_user_by_id_def s1_def)
    have "uv \<in> set (following s1 usr)"
      using uv by (simp add: set_following s1_def)
    then have second: "follow_user fault s1 usr v = (s1, (True, None))"
      using v1 ne by (auto simp: follow_user_def)
    have "count_list (followers s1) (u_id usr, v) = 1"
      using False uv by (simp add: s1_def count_list_0_iff)
    with first second show ?thesis by blast
  qed
qed

lemma unfollow_absent:
  assumes v: "get_user_by_id s v = Some uv" and no: "(u_id usr, v) \<notin> set (followers s)"
  shows "unfollow_user fault s usr v = (s, (True, None))"
proof -
  from v have "u_id uv = v" by (simp add: get_user_by_idD)
  with no have "uv \<notin> set (following s usr)" by (simp add: set_following)
  with v show ?thesis by (simp add: unfollow_user_def)
qed

text \<open>
  C3. The user \<open>usr\<close> has a row in the user table, and the two association tables hold
  each pair once (their composite primary keys). For an existing tweet \<open>t\<close>:
  \<open>like_tweet\<close> called twice answers success both times (the second time whatever the
  persistence layer does, since it writes nothing), the second call leaves the store as
  the first left it, and the table then holds the pair \<open>(usr, t)\<close> exactly once;
  \<open>unlike_tweet\<close> without such a pair answers success and leaves the store as it was.
  For an existing user \<open>v\<close> other than \<open>usr\<close> the same holds of \<open>follow_user\<close> called
  twice, and \<open>unfollow_user\<close> without the pair \<open>(usr, v)\<close> answers success and leaves the
  store as it was. No call answers with an error.
\<close>

theorem edges_are_sets:
  assumes "u_id usr \<in> set (map u_id (users s))"
    and "distinct (likes s)" and "distinct (followers s)"
  shows "(get_tweet s t \<noteq> None \<longrightarrow>
            (\<exists>s1. like_tweet None s usr t = (s1, (True, None))
                 \<and> like_tweet fault s1 usr t = (s1, (True, None))
                 \<and> count_list (likes s1) (u_id usr, t) = 1))
       \<and> (get_tweet s t \<noteq> None \<and> (u_id usr, t) \<notin> set (likes s) \<longrightarrow>
            unlike_tweet fault s usr t = (s, (True, None)))
       \<and> (get_user_by_id s v \<noteq> None \<and> v \<noteq> u_id usr \<longrightarrow>
            (\<exists>s1. follow_user None s usr v = (s1, (True, None))
                 \<and> follow_user fault s1 usr v = (s1, (True, None))
                 \<and> count_list (followers s1) (u_id usr, v) = 1))
       \<and> (get_user_by_id s v \<noteq> None \<and> (u_id usr, v) \<notin> set (followers s) \<longrightarrow>
            unfollow_user fault s usr v = (s, (True, None)))"
proof -
  have a: "\<exists>s1. like_tweet None s usr t = (s1, (True, None))
                 \<and> like_tweet fault s1 usr t = (s1, (True, None))
                 \<and> count_list (likes s1) (u_id usr, t) = 1" if "get_tweet s t \<noteq> None"
    using that assms(1,2) like_twice [of usr s t _ fault] by auto
  have b: "unlike_tweet fault s usr t = (s, (True, None))"
    if "get_tweet s t \<noteq> None" "(u_id usr, t) \<notin> set (likes s)"
    using that unlike_absent [of s t _ usr fault] by auto
  have c: "\<exists>s1. follow_user None s usr v = (s1, (True, None))
                 \<and> follow_user fault s1 usr v = (s1, (True, None))
                 \<and> count_list (followers s1) (u_id usr, v) = 1"
    if "get_user_by_id s v \<noteq> None" "v \<noteq> u_id usr"
    using that assms(3) follow_twice [of s v _ usr fault] by auto
  have d: "unfollow_user fault s usr v = (s, (True, None))"
    if "get_user_by_id s v \<noteq> None" "(u_id usr, v) \<notin> set (followers s)"
    using that unfollow_absent [of s v _ usr fault] by auto
  from a b c d show ?thesis by blast
qed

theorem edges_are_sets_witness:
  "u_id alice \<in> set (map u_id (users store1)) \<and> distinct (likes store1)
   \<and> distinct (followers store1) \<and> get_tweet store1 2 \<noteq> None
   \<and> (1, 2) \<notin> set (likes store1) \<and> get_user_by_id store0 2 \<noteq> None
   \<and> like_tweet None store1 alice 2 = (store1\<lparr>likes := [(2, 1), (1, 2)]\<rparr>, (True, None))
   \<and> like_tweet None (store1\<lparr>likes := [(2, 1), (1, 2)]\<rparr>) alice 2
        = (store1\<lparr>likes := [(2, 1), (1, 2)]\<rparr>, (True, None))
   \<and> unlike_tweet None store1 alice 2 = (store1, (True, None))
   \<and> follow_user None store0 alice 2 = (store0\<lparr>followers := [(1, 2)]\<rparr>, (True, None))
   \<and> follow_user None (store0\<lparr>followers := [(1, 2)]\<rparr>) alice 2
        = (store0\<lparr>followers := [(1, 2)]\<rparr>, (True, None))
   \<and> unfollow_user None store0 alice 2 = (store0, (True, None))"
proof -
  have h1: "u_id alice \<in> set (map u_id (users store1))" "distinct (likes store1)"
    "distinct (followers store1)" "get_tweet store1 2 \<noteq> None"
    "(1, 2) \<notin> set (likes store1)"
    by (simp_all add: store1_def alice_def bob_def get_tweet_def)
  have h0: "u_id alice \<in> set (map u_id (users store0))" "distinct (likes store0)"
    "distinct (followers store0)" "get_user_by_id store0 2 \<noteq> None"
    "(2::int) \<noteq> u_id alice" "(u_id alice, 2) \<notin> set (followers store0)"
    by (simp_all add: store0_def alice_def bob_def get_user_by_id_def)
  have l1: "like_tweet None store1 alice 2 = (store1\<lparr>likes := [(2, 1), (1, 2)]\<rparr>, (True, None))"
    by (simp add: like_tweet_def get_tweet_def tweet_likes_def store1_def alice_def bob_def)
  from edges_are_sets [OF h1(1,2,3), of 2 None 2] h1(4) l1
  have l2: "like_tweet None (store1\<lparr>likes := [(2, 1), (1, 2)]\<rparr>) alice 2
        = (store1\<lparr>likes := [(2, 1), (1, 2)]\<rparr>, (True, None))"
    by auto
  from edges_are_sets [OF h1(1,2,3), of 2 None 2] h1(4,5)
  have l3: "unlike_tweet None store1 alice 2 = (store1, (True, None))"
    by (simp add: alice_def)
  have f1: "follow_user None store0 alice 2 = (store0\<lparr>followers := [(1, 2)]\<rparr>, (True, None))"
    by (simp add: follow_user_def get_user_by_id_def following_def store0_def alice_def bob_def)
  from edges_are_sets [OF h0(1,2,3), of 1 None 2] h0(4,5) f1
  have f2: "follow_user None (store0\<lparr>followers := [(1, 2)]\<rparr>) alice 2
        = (store0\<lparr>followers := [(1, 2)]\<rparr>, (True, None))"
    by auto
  from edges_are_sets [OF h0(1,2,3), of 1 None 2] h0(4,6)
  have f3: "unfollow_user None store0 alice 2 = (store0, (True, None))"
    by simp
  from h1 h0(4) l1 l2 l3 f1 f2 f3 show ?thesis by simp
qed

section \<open>The timeline\<close>

lemma tweet_user_defined:
  assumes "tweet_user_fk s" "tw \<in> set (tweets s)"
  shows "\<exists>a. tweet_user s tw = Some a"
proof -
  from assms obtain x where "x \<in> set (users s)" "u_id x = t_user_id tw"
    by (auto simp: tweet_user_fk_def list_all_iff)
  then have "tweet_user s tw \<noteq> None"
    by (auto simp: tweet_user_def find_None_iff_set)
  then show ?thesis by auto
qed

lemma timeline_loop_total:
  "\<forall>tw \<in> set ts. \<exists>a. tweet_user s tw = Some a \<Longrightarrow>
     \<exists>vs. timeline_loop s ts acc = Inr (acc @ vs)
        \<and> list_all2 (\<lambda>tw v. tweet_dict s tw = Inr v) ts vs"
proof (induction ts arbitrary: acc)
  case Nil
  then show ?case by simp
next
  case (Cons tw rest)
  from Cons.prems obtain a where a: "tweet_user s tw = Some a" by auto
  then obtain v where v: "tweet_dict s tw = Inr v" by (simp add: tweet_dict_def)
  from Cons.prems have "\<forall>x \<in> set rest. \<exists>a. tweet_user s x = Some a" by simp
  from Cons.IH [OF this, of "acc @ [v]"] obtain vs where
    vs: "timeline_loop s rest (acc @ [v]) = Inr ((acc @ [v]) @ vs)"
      "list_all2 (\<lambda>tw v. tweet_dict s tw = Inr v) rest vs" by blast
  have "timeline_loop s (tw # rest) acc = Inr (acc @ (v # vs))"
    using v vs(1) by simp
  moreover have "list_all2 (\<lambda>tw v. tweet_dict s tw = Inr v) (tw # rest) (v # vs)"
    using v vs(2) by simp
  ultimately show ?case by blast
qed

lemma tweet_dict_id: "tweet_dict s tw = Inr v \<Longrightarrow> tv_id v = t_id tw"
  by (auto simp: tweet_dict_def Let_def split: option.splits)

lemma list_all2_dict_ids:
  "list_all2 (\<lambda>tw v. tweet_dict s tw = Inr v) ts vs \<Longrightarrow> map tv_id vs = map t_id ts"
  by (induction ts vs rule: list_all2_induct) (auto dest: tweet_dict_id)

lemma set_timeline_query: "set (timeline_query s usr) \<subseteq> set (tweets s)"
  by (auto simp: timeline_query_def)

lemma get_timeline_total:
  assumes "tweet_user_fk s"
  shows "\<exists>tl. get_timeline s usr = Inr tl
           \<and> list_all2 (\<lambda>tw v. tweet_dict s tw = Inr v) (timeline_query s usr) tl"
proof -
  have "\<forall>tw \<in> set (timeline_query s usr). \<exists>a. tweet_user s tw = Some a"
    using assms set_timeline_query [of s usr] by (blast intro: tweet_user_defined)
  from timeline_loop_total [OF this, of "[]"] show ?thesis
    by (simp add: get_timeline_def)
qed

lemma followed_filter:
  assumes "tweet_user_fk s" "t \<in> set (tweets s)"
  shows "t_user_id t \<in> set (map u_id (following s usr))
           \<longleftrightarrow> (u_id usr, t_user_id t) \<in> set (followers s)"
proof
  assume "t_user_id t \<in> set (map u_id (following s usr))"
  then show "(u_id usr, t_user_id t) \<in> set (followers s)"
    by (auto simp: set_following)
next
  assume e: "(u_id usr, t_user_id t) \<in> set (followers s)"
  from assms obtain x where "x \<in> set (users s)" "u_id x = t_user_id t"
    by (auto simp: tweet_user_fk_def list_all_iff)
  with e have "x \<in> set (following s usr)" by (simp add: set_following)
  then show "t_user_id t \<in> set (map u_id (following s usr))"
    using \<open>u_id x = t_user_id t\<close> by (metis image_eqI set_map)
qed

text \<open>
  C1. In a store where every tweet's owner has a row (the foreign key of
  \<^verbatim>\<open>tweet.user_id\<close>), \<open>get_timeline\<close> returns a list, and the ids of the returned views
  are, with multiplicity, the ids of the tweets whose owner is the user or is the target
  of a follow edge of the user: nothing else is returned, and each such tweet is returned
  once per row.
\<close>

theorem timeline_filter:
  assumes "tweet_user_fk s"
  shows "\<exists>tl. get_timeline s usr = Inr tl
     \<and> mset (map tv_id tl)
        = mset (map t_id [t \<leftarrow> tweets s.
                   t_user_id t = u_id usr \<or> (u_id usr, t_user_id t) \<in> set (followers s)])"
proof -
  from get_timeline_total [OF assms, of usr] obtain tl where
    tl: "get_timeline s usr = Inr tl"
      "list_all2 (\<lambda>tw v. tweet_dict s tw = Inr v) (timeline_query s usr) tl" by blast
  have ids: "map tv_id tl = map t_id (timeline_query s usr)"
    using tl(2) by (rule list_all2_dict_ids)
  have flt: "[t \<leftarrow> tweets s. t_user_id t = u_id usr
                 \<or> t_user_id t \<in> set (map u_id (following s usr))]
           = [t \<leftarrow> tweets s. t_user_id t = u_id usr
                 \<or> (u_id usr, t_user_id t) \<in> set (followers s)]"
    by (rule filter_cong [OF refl]) (simp only: followed_filter [OF assms])
  have "mset (timeline_query s usr)
      = mset [t \<leftarrow> tweets s. t_user_id t = u_id usr
                 \<or> (u_id usr, t_user_id t) \<in> set (followers s)]"
    unfolding timeline_query_def Let_def flt by simp
  then have "mset (map t_id (timeline_query s usr))
      = mset (map t_id [t \<leftarrow> tweets s. t_user_id t = u_id usr
                 \<or> (u_id usr, t_user_id t) \<in> set (followers s)])"
    by (simp only: mset_map)
  with tl(1) ids show ?thesis by (simp only: exI [of _ tl] simp_thms)
qed

theorem timeline_filter_witness:
  "tweet_user_fk store1
   \<and> get_timeline store1 alice
       = Inr [\<lparr>tv_id = 2, tv_content = ''Hi'', tv_attachments = [],
                tv_author = (2, ''B''), tv_likes = []\<rparr>,
              \<lparr>tv_id = 1, tv_content = ''Hello world!'',
                tv_attachments = [''/static/uploads/photo.png''],
                tv_author = (1, ''A''), tv_likes = [(2, ''B'')]\<rparr>]
   \<and> mset [2, 1]
       = mset (map t_id [t \<leftarrow> tweets store1.
                 t_user_id t = u_id alice \<or> (u_id alice, t_user_id t) \<in> set (followers store1)])"
proof -
  have fk: "tweet_user_fk store1"
    by (simp add: tweet_user_fk_def store1_def alice_def bob_def)
  have run: "get_timeline store1 alice
       = Inr [\<lparr>tv_id = 2, tv_content = ''Hi'', tv_attachments = [],
                tv_author = (2, ''B''), tv_likes = []\<rparr>,
              \<lparr>tv_id = 1, tv_content = ''Hello world!'',
                tv_attachments = [''/static/uploads/photo.png''],
                tv_author = (1, ''A''), tv_likes = [(2, ''B'')]\<rparr>]"
    by (simp add: get_timeline_def timeline_query_def following_def tweet_dict_def
          tweet_medias_def tweet_likes_def tweet_user_def get_url_def store1_def
          alice_def bob_def)
  from timeline_filter [OF fk, of alice] run fk show ?thesis by auto
qed

lemma timeline_query_sorted:
  "sorted_wrt (\<lambda>a b. created_at b \<le> created_at a) (timeline_query s usr)"
proof -
  have "sorted (map (\<lambda>t. - created_at t) (timeline_query s usr))"
    by (simp add: timeline_query_def)
  then show ?thesis by (simp add: sorted_wrt_map)
qed

text \<open>
  C2, as the code has it. The rows that \<open>get_timeline\<close> walks through are in
  non-increasing order of creation timestamp, and where every tweet's owner has a row the
  returned views are those rows in that order. Nothing is promised about the order of
  tweets with equal timestamps.
\<close>

theorem timeline_newest_first:
  "sorted_wrt (\<lambda>a b. created_at b \<le> created_at a) (timeline_query s usr)
   \<and> (tweet_user_fk s \<longrightarrow>
        (\<exists>tl. get_timeline s usr = Inr tl
             \<and> map tv_id tl = map t_id (timeline_query s usr)))"
proof -
  have "\<exists>tl. get_timeline s usr = Inr tl \<and> map tv_id tl = map t_id (timeline_query s usr)"
    if "tweet_user_fk s"
    using get_timeline_total [OF that, of usr] by (blast dest: list_all2_dict_ids)
  with timeline_query_sorted [of s usr] show ?thesis by blast
qed

theorem timeline_newest_first_witness:
  "tweet_user_fk store1
   \<and> timeline_query store1 alice
       = [\<lparr>t_id = 2, content = ''Hi'', created_at = 20, t_user_id = 2\<rparr>,
          \<lparr>t_id = 1, content = ''Hello world!'', created_at = 10, t_user_id = 1\<rparr>]
   \<and> sorted_wrt (\<lambda>a b. created_at b \<le> created_at a) (timeline_query store1 alice)
   \<and> map tv_id (projr (get_timeline store1 alice)) = [2, 1]"
proof -
  have fk: "tweet_user_fk store1"
    by (simp add: tweet_user_fk_def store1_def alice_def bob_def)
  have q: "timeline_query store1 alice
       = [\<lparr>t_id = 2, content = ''Hi'', created_at = 20, t_user_id = 2\<rparr>,
          \<lparr>t_id = 1, content = ''Hello world!'', created_at = 10, t_user_id = 1\<rparr>]"
    by (simp add: timeline_query_def following_def store1_def alice_def bob_def)
  from timeline_newest_first [of store1 alice] fk
  have "sorted_wrt (\<lambda>a b. created_at b \<le> created_at a) (timeline_query store1 alice)"
    and "\<exists>tl. get_timeline store1 alice = Inr tl
             \<and> map tv_id tl = map t_id (timeline_query store1 alice)"
    by blast+
  with fk q show ?thesis by auto
qed

text \<open>
  C2 as the specification words it fails: two tweets created by the same user at the
  same clock reading come back with the smaller id first.
\<close>

theorem timeline_tie_counterexample:
  "timeline_query store_tie alice
       = [\<lparr>t_id = 1, content = ''a'', created_at = 100, t_user_id = 1\<rparr>,
          \<lparr>t_id = 2, content = ''b'', created_at = 100, t_user_id = 1\<rparr>]
   \<and> get_timeline store_tie alice
       = Inr [\<lparr>tv_id = 1, tv_content = ''a'', tv_attachments = [],
                tv_author = (1, ''A''), tv_likes = []\<rparr>,
              \<lparr>tv_id = 2, tv_content = ''b'', tv_attachments = [],
                tv_author = (1, ''A''), tv_likes = []\<rparr>]
   \<and> \<not> time_then_id_desc (timeline_query store_tie alice)"
proof -
  have st: "store_tie
      = \<lparr>users = [alice, bob],
         tweets = [\<lparr>t_id = 1, content = ''a'', created_at = 100, t_user_id = 1\<rparr>,
                   \<lparr>t_id = 2, content = ''b'', created_at = 100, t_user_id = 1\<rparr>],
         medias = [], followers = [], likes = []\<rparr>"
    by (simp add: store_tie_def create_tweet_def next_id_def store0_def alice_def)
  have q: "timeline_query store_tie alice
       = [\<lparr>t_id = 1, content = ''a'', created_at = 100, t_user_id = 1\<rparr>,
          \<lparr>t_id = 2, content = ''b'', created_at = 100, t_user_id = 1\<rparr>]"
    unfolding st by (simp add: timeline_query_def following_def alice_def)
  have g: "get_timeline store_tie alice
       = Inr [\<lparr>tv_id = 1, tv_content = ''a'', tv_attachments = [],
                tv_author = (1, ''A''), tv_likes = []\<rparr>,
              \<lparr>tv_id = 2, tv_content = ''b'', tv_attachments = [],
                tv_author = (1, ''A''), tv_likes = []\<rparr>]"
    unfolding get_timeline_def q unfolding st
    by (simp add: tweet_dict_def tweet_medias_def tweet_likes_def tweet_user_def
          alice_def bob_def)
  have n: "\<not> time_then_id_desc (timeline_query store_tie alice)"
    unfolding q by (simp add: time_then_id_desc_def)
  from q g n show ?thesis by blast
qed

section \<open>Deleting a tweet\<close>

lemma delete_tweet_TrueD:
  assumes "delete_tweet fault s usr t = (s', (True, None))"
  shows "\<exists>tw. get_tweet s t = Some tw \<and> t_id tw = t \<and> t_user_id tw = u_id usr
            \<and> s' = session_delete s tw"
  using assms
  by (auto simp: delete_tweet_def dest: get_tweetD split: option.splits if_splits)

lemma session_delete_fk:
  "tweet_user_fk s \<Longrightarrow> tweet_user_fk (session_delete s tw)"
  by (simp add: tweet_user_fk_def session_delete_def list_all_iff)

lemma timeline_ids_subset:
  assumes "get_timeline s w = Inr vs" "tweet_user_fk s"
  shows "set (map tv_id vs) \<subseteq> set (map t_id (tweets s))"
proof -
  from get_timeline_total [OF assms(2), of w] assms(1)
  have "map tv_id vs = map t_id (timeline_query s w)"
    by (auto dest: list_all2_dict_ids)
  then show ?thesis using set_timeline_query [of s w] by auto
qed

text \<open>
  C4. In a store that respects the foreign keys of \<^verbatim>\<open>tweet.user_id\<close> and
  \<^verbatim>\<open>likes.user_id\<close>, after \<open>delete_tweet\<close> has answered success for tweet \<open>t\<close>: the
  timeline of every user is returned and holds no view with id \<open>t\<close>, the tweet is no
  longer found by its id, no like edge refers to \<open>t\<close>, the media table has the same rows
  by id, each media row that was attached to \<open>t\<close> is still there with its tweet reference
  cleared, and no media row refers to \<open>t\<close>.
\<close>

theorem delete_cascade:
  assumes fk: "tweet_user_fk s" and lk: "likes_user_fk s"
    and ok: "delete_tweet fault s usr t = (s', (True, None))"
  shows "(\<forall>w. \<exists>tl. get_timeline s' w = Inr tl \<and> t \<notin> set (map tv_id tl))
       \<and> get_tweet s' t = None
       \<and> (\<forall>e \<in> set (likes s'). snd e \<noteq> t)
       \<and> map m_id (medias s') = map m_id (medias s)
       \<and> (\<forall>m \<in> set (medias s). m_tweet_id m = Some t
             \<longrightarrow> m\<lparr>m_tweet_id := None\<rparr> \<in> set (medias s'))
       \<and> (\<forall>m \<in> set (medias s'). m_tweet_id m \<noteq> Some t)"
proof -
  from delete_tweet_TrueD [OF ok] obtain tw where
    tw: "get_tweet s t = Some tw" "t_id tw = t" and s': "s' = session_delete s tw" by blast
  have fk': "tweet_user_fk s'" unfolding s' using fk by (rule session_delete_fk)
  have gone: "t \<notin> set (map t_id (tweets s'))"
    by (auto simp: s' session_delete_def tw(2))
  have a: "\<exists>tl. get_timeline s' w = Inr tl \<and> t \<notin> set (map tv_id tl)" for w
  proof -
    from get_timeline_total [OF fk', of w] obtain tl where
      tl: "get_timeline s' w = Inr tl" by blast
    from timeline_ids_subset [OF tl fk'] gone have "t \<notin> set (map tv_id tl)" by blast
    with tl show ?thesis by blast
  qed
  have b: "get_tweet s' t = None"
    using gone by (auto simp: get_tweet_def find_None_iff_set)
  have c: "snd e \<noteq> t" if "e \<in> set (likes s')" for e
  proof
    assume eq: "snd e = t"
    from that have e: "e \<in> set (likes s)"
      and n: "\<not> (snd e = t_id tw \<and> fst e \<in> set (map u_id (tweet_likes s tw)))"
      by (auto simp: s' session_delete_def)
    from lk e obtain x where x: "x \<in> set (users s)" "u_id x = fst e"
      by (auto simp: likes_user_fk_def list_all_iff)
    with e eq tw(2) have "x \<in> set (tweet_likes s tw)"
      by (cases e) (auto simp: set_tweet_likes)
    with x(2) have "fst e \<in> set (map u_id (tweet_likes s tw))" by force
    with n eq tw(2) show False by simp
  qed
  have d: "map m_id (medias s') = map m_id (medias s)"
    by (simp add: s' session_delete_def comp_def if_distrib)
  have e: "m\<lparr>m_tweet_id := None\<rparr> \<in> set (medias s')"
    if "m \<in> set (medias s)" "m_tweet_id m = Some t" for m
    using that by (force simp: s' session_delete_def tweet_medias_def tw(2))
  have f: "m_tweet_id m \<noteq> Some t" if "m \<in> set (medias s')" for m
    using that by (auto simp: s' session_delete_def tweet_medias_def tw(2))
  from a b c d e f show ?thesis by blast
qed

theorem delete_cascade_witness:
  "tweet_user_fk store1 \<and> likes_user_fk store1
   \<and> delete_tweet None store1 alice 1
       = (store1\<lparr>tweets := [\<lparr>t_id = 2, content = ''Hi'', created_at = 20, t_user_id = 2\<rparr>],
                 likes := [],
                 medias := [\<lparr>m_id = 1, filename = ''photo.png'',
                             path = ''static/uploads/photo.png'', uploaded_at = 5,
                             m_user_id = 1, m_tweet_id = None\<rparr>]\<rparr>, (True, None))
   \<and> get_tweet (fst (delete_tweet None store1 alice 1)) 1 = None
   \<and> 1 \<notin> set (map tv_id (projr (get_timeline (fst (delete_tweet None store1 alice 1)) bob)))"
proof -
  have fk: "tweet_user_fk store1"
    by (simp add: tweet_user_fk_def store1_def alice_def bob_def)
  have lk: "likes_user_fk store1"
    by (simp add: likes_user_fk_def store1_def alice_def bob_def)
  have run: "delete_tweet None store1 alice 1
       = (store1\<lparr>tweets := [\<lparr>t_id = 2, content = ''Hi'', created_at = 20, t_user_id = 2\<rparr>],
                 likes := [],
                 medias := [\<lparr>m_id = 1, filename = ''photo.png'',
                             path = ''static/uploads/photo.png'', uploaded_at = 5,
                             m_user_id = 1, m_tweet_id = None\<rparr>]\<rparr>, (True, None))"
    by (simp add: delete_tweet_def get_tweet_def session_delete_def tweet_likes_def
          tweet_medias_def store1_def alice_def bob_def)
  from delete_cascade [OF fk lk run]
  have "get_tweet (fst (delete_tweet None store1 alice 1)) 1 = None"
    and "\<exists>vs. get_timeline (fst (delete_tweet None store1 alice 1)) bob = Inr vs
           \<and> 1 \<notin> set (map tv_id vs)"
    unfolding run by simp_all
  then have "get_tweet (fst (delete_tweet None store1 alice 1)) 1 = None
     \<and> 1 \<notin> set (map tv_id (projr (get_timeline (fst (delete_tweet None store1 alice 1)) bob)))"
    by auto
  with fk lk run show ?thesis by simp
qed

section \<open>Creating a tweet with media\<close>

lemma find_append_fresh:
  "\<forall>x \<in> set xs. \<not> P x \<Longrightarrow> find P (xs @ ys) = find P ys"
  by (induction xs) auto


lemma tweet_id_below_next: "x \<in> set (tweets s) \<Longrightarrow> t_id x < next_id (map t_id (tweets s))"
  using next_id_fresh [of "t_id x" "map t_id (tweets s)"] by simp

lemma media_id_below_next: "x \<in> set (medias s) \<Longrightarrow> m_id x < next_id (map m_id (medias s))"
  using next_id_fresh [of "m_id x" "map m_id (medias s)"] by simp

lemma create_tweet_commit:
  "bindable_ids media_ids \<Longrightarrow>
   create_tweet None now s usr cont media_ids =
     Inr (s\<lparr>tweets := tweets s @ [\<lparr>t_id = next_id (map t_id (tweets s)), content = cont,
                                created_at = now, t_user_id = u_id usr\<rparr>],
        medias := map (\<lambda>m. if m_id m \<in> (case media_ids of None \<Rightarrow> {} | Some ids \<Rightarrow> set ids)
                               \<and> m_user_id m = u_id usr
                            then m\<lparr>m_tweet_id := Some (next_id (map t_id (tweets s)))\<rparr> else m)
                      (medias s)\<rparr>,
      (True, Some (next_id (map t_id (tweets s))), None))"
  by (cases media_ids) (simp_all add: create_tweet_def Let_def bindable_ids_def)

lemma media_not_on_fresh:
  assumes "media_tweet_fk s" "m \<in> set (medias s)"
  shows "m_tweet_id m \<noteq> Some (next_id (map t_id (tweets s)))"
proof
  assume eq: "m_tweet_id m = Some (next_id (map t_id (tweets s)))"
  with assms have "next_id (map t_id (tweets s)) \<in> set (map t_id (tweets s))"
    by (auto simp: media_tweet_fk_def list_all_iff)
  then show False using next_id_notin by blast
qed








lemma upload_media_commit:
  "upload_media None now s usr fname pth =
     (s\<lparr>medias := medias s @ [\<lparr>m_id = next_id (map m_id (medias s)), filename = fname,
                                path = pth, uploaded_at = now, m_user_id = u_id usr,
                                m_tweet_id = None\<rparr>]\<rparr>,
      (True, Some (next_id (map m_id (medias s))), None))"
  by (simp add: upload_media_def Let_def)

lemma list_all2_dict_filter:
  "list_all2 (\<lambda>tw v. tweet_dict s tw = Inr v) ts vs \<Longrightarrow>
     list_all2 (\<lambda>tw v. tweet_dict s tw = Inr v)
       [tw \<leftarrow> ts. t_id tw = i] [v \<leftarrow> vs. tv_id v = i]"
  by (induction ts vs rule: list_all2_induct) (auto dest: tweet_dict_id)

text \<open>
  C10. In a store that respects the foreign keys of \<^verbatim>\<open>media.tweet_id\<close> and
  \<^verbatim>\<open>tweet.user_id\<close>, for a user who has a row, when the id that the backend issues for
  the new media row is one that the driver can bind, and when the persistence layer
  commits:
  \<open>upload_media\<close> with file name \<open>fname\<close> answers success with a media id,
  \<open>create_tweet\<close> with that single media id answers success with a tweet id, the user's
  timeline is returned and holds exactly one view with that tweet id, and the attachment
  list of that view is the single URL \<^verbatim>\<open>/static/uploads/\<close> followed by \<open>fname\<close>. The
  witness takes \<^verbatim>\<open>photo.png\<close>.
\<close>

theorem upload_then_attach:
  assumes mfk: "media_tweet_fk s" and tfk: "tweet_user_fk s"
    and row: "u_id usr \<in> set (map u_id (users s))"
    and rng: "bindable (next_id (map m_id (medias s)))"
  shows "\<exists>s1 mid s2 tid vs.
           upload_media None now1 s usr fname pth = (s1, (True, Some mid, None))
         \<and> create_tweet None now2 s1 usr cont (Some [mid]) = Inr (s2, (True, Some tid, None))
         \<and> get_timeline s2 usr = Inr vs
         \<and> map tv_attachments [v \<leftarrow> vs. tv_id v = tid] = [[''/static/uploads/'' @ fname]]"
proof -
  define mid where "mid = next_id (map m_id (medias s))"
  define md where "md = \<lparr>m_id = mid, filename = fname, path = pth, uploaded_at = now1,
                          m_user_id = u_id usr, m_tweet_id = None\<rparr>"
  define s1 where "s1 = s\<lparr>medias := medias s @ [md]\<rparr>"
  define tid where "tid = next_id (map t_id (tweets s))"
  define tw where "tw = \<lparr>t_id = tid, content = cont, created_at = now2, t_user_id = u_id usr\<rparr>"
  define s2 where
    "s2 = s\<lparr>tweets := tweets s @ [tw], medias := medias s @ [md\<lparr>m_tweet_id := Some tid\<rparr>]\<rparr>"
  have up: "upload_media None now1 s usr fname pth = (s1, (True, Some mid, None))"
    unfolding upload_media_commit s1_def md_def mid_def by simp
  have t1: "tweets s1 = tweets s" and m1: "medias s1 = medias s @ [md]"
    by (simp_all add: s1_def)
  have keep: "map (\<lambda>m. if m_id m = mid \<and> m_user_id m = u_id usr
                        then m\<lparr>m_tweet_id := k\<rparr> else m) (medias s) = medias s" for k
    by (rule map_idI) (auto simp: mid_def dest: media_id_below_next)
  have "bindable_ids (Some [mid])" using rng by (simp add: bindable_ids_def mid_def)
  from create_tweet_commit [OF this, of now2 s1 usr cont]
  have cr: "create_tweet None now2 s1 usr cont (Some [mid])
      = Inr (s2, (True, Some tid, None))"
    unfolding t1 m1
    by (simp add: keep s1_def s2_def tw_def tid_def md_def)
  have tfk2: "tweet_user_fk s2"
    using tfk row by (simp add: tweet_user_fk_def s2_def tw_def)
  from get_timeline_total [OF tfk2, of usr] obtain vs where
    vs: "get_timeline s2 usr = Inr vs"
      "list_all2 (\<lambda>tw v. tweet_dict s2 tw = Inr v) (timeline_query s2 usr) vs" by blast
  have only: "[x \<leftarrow> tweets s. Q x \<and> t_id x = tid] = []" for Q
    by (auto simp: filter_empty_conv tid_def dest: tweet_id_below_next)
  have sel: "[x \<leftarrow> timeline_query s2 usr. t_id x = tid] = [tw]"
    unfolding timeline_query_def Let_def filter_sort
    by (simp add: s2_def only tw_def)
  from list_all2_dict_filter [OF vs(2), of tid] sel
  obtain v where v: "[v \<leftarrow> vs. tv_id v = tid] = [v]" "tweet_dict s2 tw = Inr v"
    by (auto simp: list_all2_Cons1)
  have tm: "tweet_medias s2 tw = [md\<lparr>m_tweet_id := Some tid\<rparr>]"
  proof -
    have "[m \<leftarrow> medias s. m_tweet_id m = Some tid] = []"
      using media_not_on_fresh [OF mfk] by (auto simp: filter_empty_conv tid_def)
    then show ?thesis by (simp add: tweet_medias_def s2_def tw_def)
  qed
  from v(2) have "tv_attachments v = map get_url (tweet_medias s2 tw)"
    by (auto simp: tweet_dict_def Let_def split: option.splits)
  then have "tv_attachments v = [''/static/uploads/'' @ fname]"
    by (simp add: tm get_url_def md_def)
  with v(1) have "map tv_attachments [v \<leftarrow> vs. tv_id v = tid] = [[''/static/uploads/'' @ fname]]"
    by simp
  with up cr vs(1) show ?thesis by (intro exI conjI)
qed


theorem upload_then_attach_witness:
  "media_tweet_fk store0 \<and> tweet_user_fk store0 \<and> u_id alice \<in> set (map u_id (users store0))
   \<and> bindable (next_id (map m_id (medias store0)))
   \<and> upload_media None 5 store0 alice ''photo.png'' ''static/uploads/photo.png''
       = (store0\<lparr>medias := [\<lparr>m_id = 1, filename = ''photo.png'',
                               path = ''static/uploads/photo.png'', uploaded_at = 5,
                               m_user_id = 1, m_tweet_id = None\<rparr>]\<rparr>, (True, Some 1, None))
   \<and> create_tweet None 9
         (fst (upload_media None 5 store0 alice ''photo.png'' ''static/uploads/photo.png''))
         alice ''look'' (Some [1])
       = Inr (store0\<lparr>tweets := [\<lparr>t_id = 1, content = ''look'', created_at = 9, t_user_id = 1\<rparr>],
                 medias := [\<lparr>m_id = 1, filename = ''photo.png'',
                             path = ''static/uploads/photo.png'', uploaded_at = 5,
                             m_user_id = 1, m_tweet_id = Some 1\<rparr>]\<rparr>, (True, Some 1, None))
   \<and> map tv_attachments
         [v \<leftarrow> projr (get_timeline
                (fst (projr (create_tweet None 9
                   (fst (upload_media None 5 store0 alice ''photo.png''
                           ''static/uploads/photo.png''))
                   alice ''look'' (Some [1])))) alice). tv_id v = 1]
       = [[''/static/uploads/photo.png'']]"
proof -
  have h: "media_tweet_fk store0" "tweet_user_fk store0"
    "u_id alice \<in> set (map u_id (users store0))"
    "bindable (next_id (map m_id (medias store0)))"
    by (simp_all add: media_tweet_fk_def tweet_user_fk_def next_id_def bindable_def
          store0_def alice_def)
  have up: "upload_media None 5 store0 alice ''photo.png'' ''static/uploads/photo.png''
       = (store0\<lparr>medias := [\<lparr>m_id = 1, filename = ''photo.png'',
                               path = ''static/uploads/photo.png'', uploaded_at = 5,
                               m_user_id = 1, m_tweet_id = None\<rparr>]\<rparr>, (True, Some 1, None))"
    by (simp add: upload_media_def next_id_def store0_def alice_def)
  have cr: "create_tweet None 9
         (fst (upload_media None 5 store0 alice ''photo.png'' ''static/uploads/photo.png''))
         alice ''look'' (Some [1])
       = Inr (store0\<lparr>tweets := [\<lparr>t_id = 1, content = ''look'', created_at = 9, t_user_id = 1\<rparr>],
                 medias := [\<lparr>m_id = 1, filename = ''photo.png'',
                             path = ''static/uploads/photo.png'', uploaded_at = 5,
                             m_user_id = 1, m_tweet_id = Some 1\<rparr>]\<rparr>, (True, Some 1, None))"
    unfolding up by (simp add: create_tweet_def next_id_def bindable_def store0_def alice_def)
  from upload_then_attach [OF h, of 5 "''photo.png''" "''static/uploads/photo.png''" 9 "''look''"]
  obtain s1 mid s2 tid vs where
    a: "upload_media None 5 store0 alice ''photo.png'' ''static/uploads/photo.png''
          = (s1, (True, Some mid, None))"
    and b: "create_tweet None 9 s1 alice ''look'' (Some [mid]) = Inr (s2, (True, Some tid, None))"
    and c: "get_timeline s2 alice = Inr vs"
    and d: "map tv_attachments [v \<leftarrow> vs. tv_id v = tid] = [[''/static/uploads/'' @ ''photo.png'']]"
    by (elim exE conjE)
  from a have s1: "s1 = fst (upload_media None 5 store0 alice ''photo.png''
      ''static/uploads/photo.png'')" by simp
  from a up have mid: "mid = 1" by simp
  from b cr have tid: "tid = 1" unfolding s1 mid by simp
  from b have s2: "s2 = fst (projr (create_tweet None 9
         (fst (upload_media None 5 store0 alice ''photo.png'' ''static/uploads/photo.png''))
         alice ''look'' (Some [1])))" unfolding s1 mid by simp
  from c have vs: "vs = projr (get_timeline s2 alice)" by simp
  from d have "map tv_attachments [v \<leftarrow> projr (get_timeline s2 alice). tv_id v = 1]
       = [[''/static/uploads/photo.png'']]"
    unfolding vs tid by simp
  then show ?thesis using h up cr unfolding s2 by simp
qed

section \<open>Where the content of a tweet is checked\<close>

text \<open>
  C8, as the code has it. The check of the content is made by the route: for a request
  whose \<^verbatim>\<open>tweet_data\<close> is a string that is empty or longer than 280 characters,
  \<open>create_tweet_route\<close> answers \<^verbatim>\<open>ValidationError\<close> with status 400 and returns the store
  as it was, whatever the persistence layer would do. \<open>create_tweet\<close> itself makes no
  check of the content: when the driver can bind the media ids and the persistence layer
  commits, it answers success for every content and the new row carries that content.
\<close>

theorem content_checked_by_route:
  "(data ''tweet_data'' = Some (JStr txt) \<and> (txt = [] \<or> 280 < length txt) \<longrightarrow>
      create_tweet_route fault now s usr data
        = Inr (s, (ResultFalse ''ValidationError''
                     (if txt = [] then TweetDataRequired else TweetTooLong), 400)))
   \<and> (bindable_ids media_ids \<longrightarrow>
        (\<exists>s' tid. create_tweet None now s usr cont media_ids = Inr (s', (True, Some tid, None))
           \<and> get_tweet s' tid
                = Some \<lparr>t_id = tid, content = cont, created_at = now, t_user_id = u_id usr\<rparr>))"
proof -
  have a: "create_tweet_route fault now s usr data
        = Inr (s, (ResultFalse ''ValidationError''
                     (if txt = [] then TweetDataRequired else TweetTooLong), 400))"
    if "data ''tweet_data'' = Some (JStr txt)" "txt = [] \<or> 280 < length txt"
    using that by (auto simp: create_tweet_route_def)
  have b: "\<exists>s' tid. create_tweet None now s usr cont media_ids
        = Inr (s', (True, Some tid, None))
      \<and> get_tweet s' tid
           = Some \<lparr>t_id = tid, content = cont, created_at = now, t_user_id = u_id usr\<rparr>"
    if rng: "bindable_ids media_ids"
  proof -
    define tid where "tid = next_id (map t_id (tweets s))"
    from create_tweet_commit [OF rng, of now s usr cont]
    obtain s' where run: "create_tweet None now s usr cont media_ids
        = Inr (s', (True, Some tid, None))"
      and tws: "tweets s' = tweets s @ [\<lparr>t_id = tid, content = cont, created_at = now,
                                        t_user_id = u_id usr\<rparr>]"
      by (simp add: tid_def)
    have "\<forall>x \<in> set (tweets s). \<not> t_id x = tid"
      by (auto simp: tid_def dest: tweet_id_below_next)
    then have "get_tweet s' tid
        = Some \<lparr>t_id = tid, content = cont, created_at = now, t_user_id = u_id usr\<rparr>"
      by (simp add: get_tweet_def tws find_append_fresh)
    with run show ?thesis by (intro exI conjI)
  qed
  from a b show ?thesis by blast
qed

theorem content_checked_by_route_witness:
  "create_tweet_route None 100 store0 alice [''tweet_data'' \<mapsto> JStr (replicate 281 CHR ''a'')]
     = Inr (store0, (ResultFalse ''ValidationError'' TweetTooLong, 400))
   \<and> create_tweet_route None 100 store0 alice [''tweet_data'' \<mapsto> JStr '''']
     = Inr (store0, (ResultFalse ''ValidationError'' TweetDataRequired, 400))"
proof -
  have "create_tweet_route None 100 store0 alice [''tweet_data'' \<mapsto> JStr (replicate 281 CHR ''a'')]
     = Inr (store0, (ResultFalse ''ValidationError'' TweetTooLong, 400))"
    using content_checked_by_route
      [of "[''tweet_data'' \<mapsto> JStr (replicate 281 CHR ''a'')]" "replicate 281 CHR ''a''"
         None 100 store0 alice]
    by simp
  moreover have "create_tweet_route None 100 store0 alice [''tweet_data'' \<mapsto> JStr '''']
     = Inr (store0, (ResultFalse ''ValidationError'' TweetDataRequired, 400))"
    using content_checked_by_route [of "[''tweet_data'' \<mapsto> JStr '''']" "''''" None 100 store0 alice]
    by simp
  ultimately show ?thesis by blast
qed

text \<open>
  C8 as the specification words it fails: \<open>create_tweet\<close> called with the empty content
  answers success and adds a row.
\<close>

theorem create_tweet_empty_content_counterexample:
  "create_tweet None 100 store0 alice '''' None
     = Inr (store0\<lparr>tweets := [\<lparr>t_id = 1, content = '''', created_at = 100,
                                 t_user_id = 1\<rparr>]\<rparr>,
            (True, Some 1, None))"
  by (simp add: create_tweet_def next_id_def store0_def alice_def)

end
